theory Spec2Isabelle
  imports Complex_Main "HOL-Library.AList" "HOL-Library.Sublist"
    "HOL-Library.Char_ord" "HOL-Library.List_Lexorder"
begin

section \<open>The expiring cache (cache.py)\<close>

text \<open>
  \<^verbatim>\<open>CacheManager._cache\<close> is a Python dict from keys to entries
  \<^verbatim>\<open>{'value': v, 'expires_at': t}\<close>. A dict keeps its keys distinct and in insertion
  order, so it is an association list: \<open>map_of\<close> is the lookup, \<open>AList.update\<close> is
  \<^verbatim>\<open>d[k] = e\<close> (in place for a known key, appended for a new one) and
  \<open>AList.delete\<close> is \<^verbatim>\<open>del d[k]\<close>. Every call of \<^verbatim>\<open>time.time()\<close> is an argument
  \<open>now\<close> of the operation that makes it; timestamps are real numbers.
\<close>

record 'v entry =
  entry_value :: 'v
  expires_at :: real

record 'v CacheManager =
  cache :: "(string \<times> 'v entry) list"
  default_ttl :: int

definition CacheManager_init :: "int \<Rightarrow> 'v CacheManager" where
  "CacheManager_init ttl = \<lparr>cache = [], default_ttl = ttl\<rparr>"

text \<open>\<^verbatim>\<open>get\<close> returns the pair of its result (\<open>None\<close> for Python's \<^verbatim>\<open>None\<close>) and the
  cache after the call.\<close>

definition CacheManager_get ::
  "real \<Rightarrow> string \<Rightarrow> 'v CacheManager \<Rightarrow> 'v option \<times> 'v CacheManager" where
  "CacheManager_get now key s =
     (case map_of (cache s) key of
        None \<Rightarrow> (None, s)
      | Some e \<Rightarrow>
          if now > expires_at e
          then (None, s\<lparr>cache := AList.delete key (cache s)\<rparr>)
          else (Some (entry_value e), s))"

definition CacheManager_set ::
  "real \<Rightarrow> string \<Rightarrow> 'v \<Rightarrow> int option \<Rightarrow> 'v CacheManager \<Rightarrow> 'v CacheManager" where
  "CacheManager_set now key v ttl s =
     (let ttl' = (case ttl of None \<Rightarrow> default_ttl s | Some t \<Rightarrow> t);
          e = \<lparr>entry_value = v, expires_at = now + of_int ttl'\<rparr>
      in s\<lparr>cache := AList.update key e (cache s)\<rparr>)"

definition CacheManager_delete ::
  "string \<Rightarrow> 'v CacheManager \<Rightarrow> bool \<times> 'v CacheManager" where
  "CacheManager_delete key s =
     (if map_of (cache s) key \<noteq> None
      then (True, s\<lparr>cache := AList.delete key (cache s)\<rparr>)
      else (False, s))"

definition CacheManager_clear :: "'v CacheManager \<Rightarrow> 'v CacheManager" where
  "CacheManager_clear s = s\<lparr>cache := []\<rparr>"

text \<open>\<^verbatim>\<open>cleanup_expired\<close> reads the clock once, collects the expired keys in dict order
  and deletes them one by one.\<close>

definition expired_keys :: "real \<Rightarrow> (string \<times> 'v entry) list \<Rightarrow> string list" where
  "expired_keys current_time items =
     map fst (filter (\<lambda>(key, e). current_time > expires_at e) items)"

definition CacheManager_cleanup_expired ::
  "real \<Rightarrow> 'v CacheManager \<Rightarrow> nat \<times> 'v CacheManager" where
  "CacheManager_cleanup_expired now s =
     (let ks = expired_keys now (cache s)
      in (length ks, s\<lparr>cache := fold AList.delete ks (cache s)\<rparr>))"

record cache_stats =
  total_entries :: nat
  cache_keys :: "string list"

definition CacheManager_get_stats ::
  "real \<Rightarrow> 'v CacheManager \<Rightarrow> cache_stats \<times> 'v CacheManager" where
  "CacheManager_get_stats now s =
     (let s' = snd (CacheManager_cleanup_expired now s)
      in (\<lparr>total_entries = length (cache s'), cache_keys = map fst (cache s')\<rparr>, s'))"

text \<open>The keys of a dict are distinct.\<close>

definition dict_ok :: "'v CacheManager \<Rightarrow> bool" where
  "dict_ok s = distinct (map fst (cache s))"

text \<open>An entry is live at \<open>now\<close> when the clock has not passed its expiry.\<close>

definition live :: "real \<Rightarrow> 'v entry \<Rightarrow> bool" where
  "live now e = (\<not> now > expires_at e)"

section \<open>Campaign data: ingestion and storage (data_processing.py, database.py)\<close>

text \<open>
  Dates are day numbers. Numbers that Python holds as floats are exact rationals here:
  the rounding of binary floating point is not modelled. A numeric cell of a pandas column
  is \<open>Some q\<close>, and \<open>None\<close> is NaN, which is what \<^verbatim>\<open>pd.to_numeric(errors='coerce')\<close> makes of
  a cell it cannot read. A date cell is \<open>None\<close> when \<^verbatim>\<open>pd.to_datetime\<close> rejects it.
  The columns \<^verbatim>\<open>campaign\<close> and \<^verbatim>\<open>cost\<close> are carried along by the source and read by no
  statistic; they are left out.
\<close>

type_synonym date = int

datatype error =
    ValueError "string list"
  | ParserError
  | DataError
  | HTTPException nat










text \<open>The table \<^verbatim>\<open>ad_data\<close>: the columns the queries read, with the autoincremented
  \<^verbatim>\<open>id\<close>.\<close>

record AdData =
  ad_id :: nat
  ad_date :: date
  ad_channel :: string
  ad_impressions :: "int option"
  ad_clicks :: int
  ad_conversions :: int
  ad_ctr :: "rat option"
  ad_conversion_rate :: rat

record database =
  ad_data :: "AdData list"
  next_id :: nat






section \<open>Statistics (database.py, data_processing.py, dashboard.py)\<close>

text \<open>Python's \<^verbatim>\<open>round(x, 2)\<close>: to two decimals, a tie going to the even neighbour.\<close>

definition round_half_even :: "rat \<Rightarrow> int" where
  "round_half_even x =
     (let f = \<lfloor>x\<rfloor>; r = x - of_int f
      in if r < 1 / 2 then f
         else if r > 1 / 2 then f + 1
         else if even f then f else f + 1)"

definition py_round2 :: "rat \<Rightarrow> rat" where
  "py_round2 x = of_int (round_half_even (x * 100)) / 100"

text \<open>\<^verbatim>\<open>if start_date:\<close> on an optional string: \<^verbatim>\<open>None\<close> and the empty string are falsy.
  The comparison of the \<^verbatim>\<open>Date\<close> column with the string is the database's: \<open>cast\<close> is its
  reading of a string as a date, and a string it cannot read makes the query fail.
  The rows of a query without \<^verbatim>\<open>ORDER BY\<close> are taken in the order of the table.\<close>

fun date_filter ::
  "(date \<Rightarrow> date \<Rightarrow> bool) \<Rightarrow> (string \<Rightarrow> date option) \<Rightarrow> string option \<Rightarrow>
   AdData list \<Rightarrow> error + AdData list" where
  "date_filter cmp cast None q = Inr q"
| "date_filter cmp cast (Some s) q =
     (if s = [] then Inr q
      else case cast s of
             None \<Rightarrow> Inl DataError
           | Some d \<Rightarrow> Inr (filter (\<lambda>r. cmp (ad_date r) d) q))"

fun channel_filter :: "string option \<Rightarrow> AdData list \<Rightarrow> AdData list" where
  "channel_filter None q = q"
| "channel_filter (Some c) q = (if c = [] then q else filter (\<lambda>r. ad_channel r = c) q)"

definition query_all ::
  "(string \<Rightarrow> date option) \<Rightarrow> string option \<Rightarrow> string option \<Rightarrow> string option \<Rightarrow>
   AdData list \<Rightarrow> error + AdData list" where
  "query_all cast start_date end_date channel table =
     (case date_filter (\<lambda>a b. a \<ge> b) cast start_date table of
        Inl e \<Rightarrow> Inl e
      | Inr q1 \<Rightarrow>
          (case date_filter (\<lambda>a b. a \<le> b) cast end_date q1 of
             Inl e \<Rightarrow> Inl e
           | Inr q2 \<Rightarrow> Inr (channel_filter channel q2)))"

record stats_row =
  row_id :: nat
  row_date :: date
  row_channel :: string
  row_clicks :: int
  row_conversions :: int
  row_conversion_rate :: rat

record stats_summary =
  total_records :: nat
  total_clicks :: int
  total_conversions :: int
  avg_conversion_rate :: rat

record stats_result =
  data :: "stats_row list"
  summary :: stats_summary

definition to_row :: "AdData \<Rightarrow> stats_row" where
  "to_row r =
     \<lparr>row_id = ad_id r, row_date = ad_date r, row_channel = ad_channel r,
      row_clicks = ad_clicks r, row_conversions = ad_conversions r,
      row_conversion_rate = py_round2 (ad_conversion_rate r)\<rparr>"

definition summarize :: "stats_row list \<Rightarrow> stats_summary" where
  "summarize d =
     (let tc = sum_list (map row_clicks d);
          tv = sum_list (map row_conversions d);
          avg = (if tc > 0 then of_int tv / of_int tc * 100 else 0)
      in \<lparr>total_records = length d, total_clicks = tc, total_conversions = tv,
          avg_conversion_rate = py_round2 avg\<rparr>)"

definition get_stats ::
  "(string \<Rightarrow> date option) \<Rightarrow> string option \<Rightarrow> string option \<Rightarrow> string option \<Rightarrow>
   AdData list \<Rightarrow> error + stats_result" where
  "get_stats cast start_date end_date channel table =
     (case query_all cast start_date end_date channel table of
        Inl e \<Rightarrow> Inl e
      | Inr results \<Rightarrow>
          (let d = map to_row results
           in Inr \<lparr>data = d, summary = summarize d\<rparr>))"

text \<open>
  \<^verbatim>\<open>get_channel_summary\<close> is one SQL statement: \<^verbatim>\<open>GROUP BY channel\<close> with \<^verbatim>\<open>COUNT\<close>,
  \<^verbatim>\<open>SUM\<close> and \<^verbatim>\<open>AVG(conversion_rate)\<close>, then \<^verbatim>\<open>ORDER BY total_clicks DESC\<close>. SQL leaves
  the order of rows with equal sort keys to the database. The order in which the database
  forms the groups is the parameter \<open>rank\<close> (the groups come out by increasing rank);
  the final sort keeps groups with equal \<open>total_clicks\<close> in that order.
\<close>

record ChannelSummary =
  cs_channel :: string
  record_count :: nat
  cs_total_clicks :: int
  cs_total_conversions :: int
  cs_avg_conversion_rate :: rat

definition sql_avg :: "rat list \<Rightarrow> rat" where
  "sql_avg xs = sum_list xs / of_nat (length xs)"

definition group_row :: "AdData list \<Rightarrow> string \<Rightarrow> ChannelSummary" where
  "group_row table c =
     (let g = filter (\<lambda>r. ad_channel r = c) table
      in \<lparr>cs_channel = c, record_count = length g,
          cs_total_clicks = sum_list (map ad_clicks g),
          cs_total_conversions = sum_list (map ad_conversions g),
          cs_avg_conversion_rate = py_round2 (sql_avg (map ad_conversion_rate g))\<rparr>)"

definition get_channel_summary :: "(string \<Rightarrow> nat) \<Rightarrow> AdData list \<Rightarrow> ChannelSummary list" where
  "get_channel_summary rank table =
     sort_key (\<lambda>g. - cs_total_clicks g)
       (map (group_row table) (sort_key rank (remdups (map ad_channel table))))"

text \<open>
  \<^verbatim>\<open>aggregate_by_channel\<close> and \<^verbatim>\<open>aggregate_by_date\<close> work on the frame of columns
  \<^verbatim>\<open>date, channel, clicks, conversions, conversion_rate\<close>. \<^verbatim>\<open>groupby\<close> sorts the group keys
  ascending; the mean of \<^verbatim>\<open>conversion_rate\<close> it first computes is overwritten by
  \<^verbatim>\<open>conversions / clicks * 100\<close> on the sums. A pandas division by zero raises nothing and
  gives an infinity or NaN, which is \<open>None\<close> here.
\<close>

record 'k aggregated =
  agg_key :: 'k
  agg_clicks :: int
  agg_conversions :: int
  agg_conversion_rate :: "rat option"

definition pd_div100 :: "int \<Rightarrow> int \<Rightarrow> rat option" where
  "pd_div100 a b = (if b = 0 then None else Some (of_int a / of_int b * 100))"

definition aggregate_row :: "(AdData \<Rightarrow> 'k) \<Rightarrow> AdData list \<Rightarrow> 'k \<Rightarrow> 'k aggregated" where
  "aggregate_row key df k =
     (let g = filter (\<lambda>r. key r = k) df;
          clicks = sum_list (map ad_clicks g);
          conversions = sum_list (map ad_conversions g)
      in \<lparr>agg_key = k, agg_clicks = clicks, agg_conversions = conversions,
          agg_conversion_rate = pd_div100 conversions clicks\<rparr>)"

definition aggregate_by :: "(AdData \<Rightarrow> 'k::linorder) \<Rightarrow> AdData list \<Rightarrow> 'k aggregated list" where
  "aggregate_by key df =
     (if df = [] then []
      else map (aggregate_row key df) (sort (remdups (map key df))))"

definition aggregate_by_channel :: "AdData list \<Rightarrow> string aggregated list" where
  "aggregate_by_channel df = aggregate_by ad_channel df"

definition aggregate_by_date :: "AdData list \<Rightarrow> date aggregated list" where
  "aggregate_by_date df = aggregate_by ad_date df"


section \<open>The request handlers (main.py)\<close>

text \<open>
  The module-level \<^verbatim>\<open>cache\<close>, the database and a counter of the calls of \<^verbatim>\<open>get_stats\<close>
  form the state. \<^verbatim>\<open>get_statistics\<close> reads the clock in \<^verbatim>\<open>cache.get\<close> (\<open>t_get\<close>) and again
  in \<^verbatim>\<open>cache.set\<close> (\<open>t_set\<close>). The cached value is the dict with the keys \<^verbatim>\<open>data\<close> and
  \<^verbatim>\<open>summary\<close>, which is never empty, so \<^verbatim>\<open>if cached_result:\<close> holds exactly when \<^verbatim>\<open>get\<close>
  returned a value. The token check is outside the model.
\<close>

record app =
  cache_mgr :: "stats_result CacheManager"
  db :: database
  get_stats_calls :: nat

definition fmt :: "string option \<Rightarrow> string" where
  "fmt x = (case x of None \<Rightarrow> ''None'' | Some s \<Rightarrow> s)"

definition cache_key :: "string option \<Rightarrow> string option \<Rightarrow> string option \<Rightarrow> string" where
  "cache_key start_date end_date channel =
     ''stats_'' @ fmt start_date @ ''_'' @ fmt end_date @ ''_'' @ fmt channel"

definition get_statistics ::
  "(string \<Rightarrow> date option) \<Rightarrow> real \<Rightarrow> real \<Rightarrow>
   string option \<Rightarrow> string option \<Rightarrow> string option \<Rightarrow> app \<Rightarrow> (error + stats_result) \<times> app" where
  "get_statistics cast t_get t_set start_date end_date channel st =
     (let k = cache_key start_date end_date channel;
          (cached_result, c1) = CacheManager_get t_get k (cache_mgr st)
      in case cached_result of
           Some r \<Rightarrow> (Inr r, st\<lparr>cache_mgr := c1\<rparr>)
         | None \<Rightarrow>
             (case get_stats cast start_date end_date channel (ad_data (db st)) of
                Inl e \<Rightarrow>
                  (Inl (HTTPException 500),
                   st\<lparr>cache_mgr := c1, get_stats_calls := get_stats_calls st + 1\<rparr>)
              | Inr stats \<Rightarrow>
                  (Inr stats,
                   st\<lparr>cache_mgr := CacheManager_set t_set k stats (Some 300) c1,
                      get_stats_calls := get_stats_calls st + 1\<rparr>)))"


section \<open>Notions used in the statements\<close>








definition empty_app :: app where
  "empty_app =
     \<lparr>cache_mgr = CacheManager_init 300, db = \<lparr>ad_data = [], next_id = 1\<rparr>,
      get_stats_calls = 0\<rparr>"

section \<open>Properties of the cache\<close>

subsection \<open>The dict invariant\<close>

lemma dict_ok_init: "dict_ok (CacheManager_init ttl)"
  by (simp add: dict_ok_def CacheManager_init_def)

lemma dict_ok_get: "dict_ok s \<Longrightarrow> dict_ok (snd (CacheManager_get now key s))"
  by (simp add: dict_ok_def CacheManager_get_def distinct_delete split: option.splits)

lemma dict_ok_set: "dict_ok s \<Longrightarrow> dict_ok (CacheManager_set now key v ttl s)"
  by (simp add: dict_ok_def CacheManager_set_def Let_def distinct_update)

lemma dict_ok_delete: "dict_ok s \<Longrightarrow> dict_ok (snd (CacheManager_delete key s))"
  by (simp add: dict_ok_def CacheManager_delete_def distinct_delete)

lemma dict_ok_clear: "dict_ok (CacheManager_clear s)"
  by (simp add: dict_ok_def CacheManager_clear_def)

lemma fold_delete_filter:
  "fold AList.delete ks al = filter (\<lambda>p. fst p \<notin> set ks) al"
proof (induction ks arbitrary: al)
  case Nil
  show ?case by simp
next
  case (Cons k ks)
  have "AList.delete k al = filter (\<lambda>p. fst p \<noteq> k) al"
    by (induction al) auto
  then show ?case
    by (simp add: Cons.IH)
qed

lemma expired_filter:
  assumes "distinct (map fst al)"
  shows "filter (\<lambda>p. fst p \<notin> set (expired_keys now al)) al = filter (\<lambda>p. live now (snd p)) al"
proof (rule filter_cong [OF refl])
  fix p assume p: "p \<in> set al"
  show "(fst p \<notin> set (expired_keys now al)) = live now (snd p)"
  proof (cases "now > expires_at (snd p)")
    case True
    then have "fst p \<in> set (expired_keys now al)"
      using p by (force simp: expired_keys_def)
    with True show ?thesis by (simp add: live_def)
  next
    case False
    have "fst p \<notin> set (expired_keys now al)"
    proof
      assume "fst p \<in> set (expired_keys now al)"
      then obtain e' where e': "(fst p, e') \<in> set al" "now > expires_at e'"
        by (auto simp: expired_keys_def)
      have "(fst p, snd p) \<in> set al" using p by simp
      from eq_key_imp_eq_value [OF assms e'(1) this] e'(2) False show False by simp
    qed
    with False show ?thesis by (simp add: live_def)
  qed
qed

lemma cleanup_cache:
  "dict_ok s \<Longrightarrow>
   cache (snd (CacheManager_cleanup_expired now s)) = filter (\<lambda>p. live now (snd p)) (cache s)"
  by (simp add: CacheManager_cleanup_expired_def Let_def fold_delete_filter expired_filter
      dict_ok_def)

lemma dict_ok_cleanup: "dict_ok s \<Longrightarrow> dict_ok (snd (CacheManager_cleanup_expired now s))"
  using cleanup_cache [of s now] by (simp add: dict_ok_def distinct_map_filter)

lemma set_then_get:
  "fst (CacheManager_get t_get k (CacheManager_set t_set k v (Some ttl) s))
     = (if t_get > t_set + of_int ttl then None else Some v)"
  by (simp add: CacheManager_get_def CacheManager_set_def update_conv')

section \<open>Properties of the statistics\<close>

lemma round_half_even_of_int: "round_half_even (of_int n) = n"
  by (simp add: round_half_even_def)

lemma py_round2_zero: "py_round2 0 = 0"
  using round_half_even_of_int [of 0] by (simp add: py_round2_def)






lemma set_insort_map: "set (map g (insort_key f x xs)) = insert (g x) (set (map g xs))"
  by (induction xs) auto

lemma distinct_insort_map:
  "distinct (map g (insort_key f x xs)) = (g x \<notin> set (map g xs) \<and> distinct (map g xs))"
proof (induction xs)
  case Nil
  show ?case by simp
next
  case (Cons y ys)
  show ?case
    using Cons.IH set_insort_map [of g f x ys] by auto
qed

lemma set_sort_key_map: "set (map g (sort_key f xs)) = set (map g xs)"
  by simp

lemma distinct_sort_key_map: "distinct (map g (sort_key f xs)) = distinct (map g xs)"
  by (induction xs) (simp_all add: distinct_insort_map set_sort_key_map)

lemma group_row_channel: "map cs_channel (map (group_row table) ks) = ks"
  by (induction ks) (simp_all add: group_row_def Let_def)

lemma aggregate_row_key: "map agg_key (map (aggregate_row key df) ks) = ks"
  by (induction ks) (simp_all add: aggregate_row_def Let_def)

lemma channel_summary_sorted:
  "sorted_wrt (\<lambda>a b. cs_total_clicks a \<ge> cs_total_clicks b) (get_channel_summary rank table)"
proof -
  have "sorted (map (\<lambda>g. - cs_total_clicks g) (get_channel_summary rank table))"
    unfolding get_channel_summary_def by (rule sorted_sort_key)
  then show ?thesis by (simp add: sorted_map)
qed

lemma channel_summary_channels:
  "set (map cs_channel (get_channel_summary rank table)) = set (map ad_channel table)"
  "distinct (map cs_channel (get_channel_summary rank table))"
proof -
  let ?ks = "sort_key rank (remdups (map ad_channel table))"
  have s: "set ?ks = set (map ad_channel table)" by simp
  have d: "distinct ?ks" by simp
  show "set (map cs_channel (get_channel_summary rank table)) = set (map ad_channel table)"
    unfolding get_channel_summary_def set_sort_key_map group_row_channel by (rule s)
  show "distinct (map cs_channel (get_channel_summary rank table))"
    unfolding get_channel_summary_def distinct_sort_key_map group_row_channel by (rule d)
qed

lemma aggregate_by_keys:
  "map agg_key (aggregate_by key df) = sort (remdups (map key df))"
  using aggregate_row_key [of key df "sort (remdups (map key df))"]
  by (simp add: aggregate_by_def del: map_map)

lemma aggregate_by_sorted: "sorted_wrt (<) (map agg_key (aggregate_by key df))"
  unfolding aggregate_by_keys by (simp add: strict_sorted_iff)





section \<open>Properties of the cached query handler\<close>

lemma get_after_set:
  "CacheManager_get t k (CacheManager_set t' k v (Some ttl) c)
     = (if t > t' + of_int ttl
        then (None, (CacheManager_set t' k v (Some ttl) c)
                \<lparr>cache := AList.delete k (cache (CacheManager_set t' k v (Some ttl) c))\<rparr>)
        else (Some v, CacheManager_set t' k v (Some ttl) c))"
  by (simp add: CacheManager_get_def CacheManager_set_def update_conv')

lemma get_after_clear: "CacheManager_get t k (CacheManager_clear c) = (None, CacheManager_clear c)"
  by (simp add: CacheManager_get_def CacheManager_clear_def)

lemma get_statistics_miss:
  assumes "fst (CacheManager_get t k0 (cache_mgr st)) = None"
    and "k0 = cache_key sd ed ch"
    and "get_stats cast sd ed ch (ad_data (db st)) = Inr r"
  shows "get_statistics cast t t' sd ed ch st =
     (Inr r, st\<lparr>cache_mgr := CacheManager_set t' k0 r (Some 300)
                              (snd (CacheManager_get t k0 (cache_mgr st))),
               get_stats_calls := get_stats_calls st + 1\<rparr>)"
  using assms by (simp add: get_statistics_def Let_def split_beta)

lemma get_statistics_hit:
  assumes "CacheManager_get t (cache_key sd ed ch) (cache_mgr st) = (Some r, c)"
  shows "get_statistics cast t t' sd ed ch st = (Inr r, st\<lparr>cache_mgr := c\<rparr>)"
  using assms by (simp add: get_statistics_def Let_def)

lemma get_stats_empty_app:
  "get_stats cast None None None (ad_data (db empty_app)) =
     Inr \<lparr>data = [], summary = \<lparr>total_records = 0, total_clicks = 0, total_conversions = 0,
        avg_conversion_rate = 0\<rparr>\<rparr>"
  by (simp add: get_stats_def query_all_def summarize_def py_round2_zero empty_app_def)

lemma get_empty_app:
  "fst (CacheManager_get t (cache_key None None None) (cache_mgr empty_app)) = None"
  by (simp add: CacheManager_get_def empty_app_def CacheManager_init_def)

section \<open>The claims about the cache\<close>

text \<open>
  Claim C1. For every key and every cache state, \<^verbatim>\<open>get\<close> never returns a value whose
  \<open>expires_at\<close> has passed: when the entry exists and \<open>now > expires_at\<close> the entry is
  removed and the result is absent; when it exists and \<open>now \<le> expires_at\<close> the stored
  value is returned and the cache is unchanged; and whatever value \<^verbatim>\<open>get\<close> returns is
  the value of an entry that has not expired.
\<close>

theorem get_never_returns_expired:
  "(map_of (cache s) k = Some e \<and> now > expires_at e \<longrightarrow>
      CacheManager_get now k s = (None, s\<lparr>cache := AList.delete k (cache s)\<rparr>)
      \<and> map_of (cache (snd (CacheManager_get now k s))) k = None)
   \<and> (map_of (cache s) k = Some e \<and> now \<le> expires_at e \<longrightarrow>
      CacheManager_get now k s = (Some (entry_value e), s))
   \<and> (fst (CacheManager_get now k s) = Some v \<longrightarrow>
      (\<exists>e'. map_of (cache s) k = Some e' \<and> entry_value e' = v \<and> now \<le> expires_at e'))"
  by (auto simp: CacheManager_get_def delete_conv' split: option.splits)

theorem get_never_returns_expired_witness:
  "CacheManager_get 11 ''k'' \<lparr>cache = [(''k'', \<lparr>entry_value = 7::nat, expires_at = 10\<rparr>)], default_ttl = 300\<rparr>
     = (None, \<lparr>cache = [], default_ttl = 300\<rparr>)
   \<and> CacheManager_get 10 ''k'' \<lparr>cache = [(''k'', \<lparr>entry_value = 7::nat, expires_at = 10\<rparr>)], default_ttl = 300\<rparr>
     = (Some 7, \<lparr>cache = [(''k'', \<lparr>entry_value = 7::nat, expires_at = 10\<rparr>)], default_ttl = 300\<rparr>)
   \<and> (\<exists>e'. map_of [(''k'', \<lparr>entry_value = 7::nat, expires_at = 10\<rparr>)] ''k'' = Some e'
         \<and> entry_value e' = 7 \<and> (10::real) \<le> expires_at e')"
  using get_never_returns_expired
      [where s = "\<lparr>cache = [(''k'', \<lparr>entry_value = 7::nat, expires_at = 10\<rparr>)], default_ttl = 300\<rparr>"
          and k = "''k''" and e = "\<lparr>entry_value = 7::nat, expires_at = 10\<rparr>" and now = 11 and v = 7]
    get_never_returns_expired
      [where s = "\<lparr>cache = [(''k'', \<lparr>entry_value = 7::nat, expires_at = 10\<rparr>)], default_ttl = 300\<rparr>"
          and k = "''k''" and e = "\<lparr>entry_value = 7::nat, expires_at = 10\<rparr>" and now = 10 and v = 7]
  by simp

text \<open>
  Claim C7 as stated (a non-positive ttl makes the next \<^verbatim>\<open>get\<close> return absent) fails for
  \<open>ttl = 0\<close>: the entry expires at the clock reading of the \<^verbatim>\<open>set\<close>, and the test
  in \<^verbatim>\<open>get\<close> is the strict \<open>now > expires_at\<close>, so a \<^verbatim>\<open>get\<close> at the same reading
  still returns the value.
\<close>

theorem set_get_same_reading_returns_value:
  "fst (CacheManager_get 100 ''k'' (CacheManager_set 100 ''k'' (7::nat) (Some 0) (CacheManager_init 300)))
     = Some 7"
  by (simp add: CacheManager_get_def CacheManager_set_def CacheManager_init_def)

text \<open>
  Claim C7, amended. After \<^verbatim>\<open>set(k, v, ttl)\<close> with \<open>ttl < 0\<close>, every later \<^verbatim>\<open>get(k)\<close>
  (at a clock reading not before the one of the \<^verbatim>\<open>set\<close>) returns absent. With
  \<open>ttl = 0\<close> the next \<^verbatim>\<open>get(k)\<close> returns absent once the clock has advanced strictly past
  the reading of the \<^verbatim>\<open>set\<close>, and returns \<open>v\<close> at that same reading.
\<close>

theorem set_nonpositive_ttl:
  "(ttl < 0 \<and> t_set \<le> t_get \<longrightarrow>
        fst (CacheManager_get t_get k (CacheManager_set t_set k v (Some ttl) s)) = None)
   \<and> (ttl = 0 \<and> t_set < t_get \<longrightarrow>
        fst (CacheManager_get t_get k (CacheManager_set t_set k v (Some ttl) s)) = None)
   \<and> (ttl = 0 \<and> t_get = t_set \<longrightarrow>
        fst (CacheManager_get t_get k (CacheManager_set t_set k v (Some ttl) s)) = Some v)"
proof -
  have "t_get > t_set + of_int ttl" if "ttl < 0" "t_set \<le> t_get"
  proof -
    have "(of_int ttl :: real) < 0" using that(1) by simp
    with that(2) show ?thesis by linarith
  qed
  then show ?thesis by (simp add: set_then_get)
qed

theorem set_nonpositive_ttl_witness:
  "fst (CacheManager_get 100 ''k'' (CacheManager_set 100 ''k'' (7::nat) (Some (-5)) (CacheManager_init 300))) = None
   \<and> fst (CacheManager_get 101 ''k'' (CacheManager_set 100 ''k'' (7::nat) (Some 0) (CacheManager_init 300))) = None
   \<and> fst (CacheManager_get 100 ''k'' (CacheManager_set 100 ''k'' (7::nat) (Some 0) (CacheManager_init 300))) = Some 7"
  using set_nonpositive_ttl [where ttl = "-5" and t_set = 100 and t_get = 100 and k = "''k''"
        and v = "7::nat" and s = "CacheManager_init 300"]
    set_nonpositive_ttl [where ttl = 0 and t_set = 100 and t_get = 101 and k = "''k''"
        and v = "7::nat" and s = "CacheManager_init 300"]
    set_nonpositive_ttl [where ttl = 0 and t_set = 100 and t_get = 100 and k = "''k''"
        and v = "7::nat" and s = "CacheManager_init 300"]
  by simp

text \<open>
  Claim C9. \<^verbatim>\<open>cleanup_expired\<close> (the sweep) removes exactly the entries with
  \<open>expires_at < now\<close>, all of them and no others, and returns how many it removed;
  \<^verbatim>\<open>get_stats\<close> sweeps first, so its \<open>total_entries\<close> is the number of entries that are
  not expired and its key list holds exactly the live keys.
\<close>

theorem cleanup_expired_exact:
  assumes "dict_ok s"
  shows "cache (snd (CacheManager_cleanup_expired now s))
           = filter (\<lambda>p. \<not> expires_at (snd p) < now) (cache s)
       \<and> default_ttl (snd (CacheManager_cleanup_expired now s)) = default_ttl s
       \<and> fst (CacheManager_cleanup_expired now s)
           = length (filter (\<lambda>p. expires_at (snd p) < now) (cache s))
       \<and> fst (CacheManager_cleanup_expired now s)
           = length (cache s) - length (cache (snd (CacheManager_cleanup_expired now s)))
       \<and> snd (CacheManager_get_stats now s) = snd (CacheManager_cleanup_expired now s)
       \<and> total_entries (fst (CacheManager_get_stats now s))
           = length (filter (\<lambda>p. \<not> expires_at (snd p) < now) (cache s))
       \<and> set (cache_keys (fst (CacheManager_get_stats now s)))
           = {k. \<exists>e. map_of (cache s) k = Some e \<and> \<not> expires_at e < now}"
proof -
  let ?s' = "snd (CacheManager_cleanup_expired now s)"
  have c: "cache ?s' = filter (\<lambda>p. \<not> expires_at (snd p) < now) (cache s)"
    using cleanup_cache [OF assms, of now] by (simp add: live_def)
  have n: "fst (CacheManager_cleanup_expired now s)
           = length (filter (\<lambda>p. expires_at (snd p) < now) (cache s))"
    by (simp add: CacheManager_cleanup_expired_def Let_def expired_keys_def split_def)
  have l: "length (cache s) = length (filter (\<lambda>p. expires_at (snd p) < now) (cache s))
            + length (filter (\<lambda>p. \<not> expires_at (snd p) < now) (cache s))"
    by (rule sum_length_filter_compl [symmetric])
  have d: "distinct (map fst (cache s))" using assms by (simp add: dict_ok_def)
  have k: "set (map fst (cache ?s')) = {k. \<exists>e. map_of (cache s) k = Some e \<and> \<not> expires_at e < now}"
  proof (rule set_eqI)
    fix k
    have "k \<in> set (map fst (cache ?s')) \<longleftrightarrow> (\<exists>e. (k, e) \<in> set (cache s) \<and> \<not> expires_at e < now)"
      unfolding c by force
    also have "\<dots> \<longleftrightarrow> (\<exists>e. map_of (cache s) k = Some e \<and> \<not> expires_at e < now)"
      using d by (simp add: map_of_eq_Some_iff)
    finally show "k \<in> set (map fst (cache ?s')) \<longleftrightarrow>
      k \<in> {k. \<exists>e. map_of (cache s) k = Some e \<and> \<not> expires_at e < now}" by simp
  qed
  show ?thesis
    using c n l k
    by (simp add: CacheManager_get_stats_def Let_def CacheManager_cleanup_expired_def)
qed

theorem cleanup_expired_exact_witness:
  "dict_ok \<lparr>cache = [(''a'', \<lparr>entry_value = 7::nat, expires_at = 5\<rparr>),
                      (''b'', \<lparr>entry_value = 8, expires_at = 20\<rparr>),
                      (''c'', \<lparr>entry_value = 9, expires_at = 10\<rparr>)], default_ttl = 300\<rparr>
   \<and> CacheManager_cleanup_expired 10
        \<lparr>cache = [(''a'', \<lparr>entry_value = 7::nat, expires_at = 5\<rparr>),
                   (''b'', \<lparr>entry_value = 8, expires_at = 20\<rparr>),
                   (''c'', \<lparr>entry_value = 9, expires_at = 10\<rparr>)], default_ttl = 300\<rparr>
     = (1, \<lparr>cache = [(''b'', \<lparr>entry_value = 8, expires_at = 20\<rparr>),
                      (''c'', \<lparr>entry_value = 9, expires_at = 10\<rparr>)], default_ttl = 300\<rparr>)
   \<and> fst (CacheManager_get_stats 10
        \<lparr>cache = [(''a'', \<lparr>entry_value = 7::nat, expires_at = 5\<rparr>),
                   (''b'', \<lparr>entry_value = 8, expires_at = 20\<rparr>),
                   (''c'', \<lparr>entry_value = 9, expires_at = 10\<rparr>)], default_ttl = 300\<rparr>)
     = \<lparr>total_entries = 2, cache_keys = [''b'', ''c'']\<rparr>"
proof -
  let ?s = "\<lparr>cache = [(''a'', \<lparr>entry_value = 7::nat, expires_at = 5\<rparr>),
                      (''b'', \<lparr>entry_value = 8, expires_at = 20\<rparr>),
                      (''c'', \<lparr>entry_value = 9, expires_at = 10\<rparr>)], default_ttl = 300\<rparr>"
  have ok: "dict_ok ?s" by (simp add: dict_ok_def)
  have ev: "CacheManager_cleanup_expired 10 ?s
     = (1, \<lparr>cache = [(''b'', \<lparr>entry_value = 8, expires_at = 20\<rparr>),
                      (''c'', \<lparr>entry_value = 9, expires_at = 10\<rparr>)], default_ttl = 300\<rparr>)"
    by (simp add: CacheManager_cleanup_expired_def expired_keys_def)
  have st: "fst (CacheManager_get_stats 10 ?s) = \<lparr>total_entries = 2, cache_keys = [''b'', ''c'']\<rparr>"
    by (simp add: CacheManager_get_stats_def Let_def ev)
  from cleanup_expired_exact [OF ok, of 10] ok ev st show ?thesis by simp
qed

text \<open>
  Claim C10. The single-key operations \<^verbatim>\<open>get(k)\<close>, \<^verbatim>\<open>set(k, v, ttl)\<close> and
  \<^verbatim>\<open>delete(k)\<close> leave the entry (value and expiry) of every other key unchanged.
\<close>

theorem single_key_frame:
  assumes "k' \<noteq> k"
  shows "map_of (cache (snd (CacheManager_get now k s))) k' = map_of (cache s) k'
       \<and> map_of (cache (CacheManager_set now k v ttl s)) k' = map_of (cache s) k'
       \<and> map_of (cache (snd (CacheManager_delete k s))) k' = map_of (cache s) k'"
  using assms
  by (simp add: CacheManager_get_def CacheManager_set_def CacheManager_delete_def Let_def
      update_conv' split: option.splits)

theorem single_key_frame_witness:
  "''b'' \<noteq> ''a''
   \<and> map_of (cache (snd (CacheManager_get 10 ''a''
        \<lparr>cache = [(''a'', \<lparr>entry_value = 7::nat, expires_at = 5\<rparr>),
                   (''b'', \<lparr>entry_value = 8, expires_at = 20\<rparr>)], default_ttl = 300\<rparr>))) ''b''
      = Some \<lparr>entry_value = 8, expires_at = 20\<rparr>
   \<and> map_of (cache (CacheManager_set 10 ''a'' 5 None
        \<lparr>cache = [(''a'', \<lparr>entry_value = 7::nat, expires_at = 5\<rparr>),
                   (''b'', \<lparr>entry_value = 8, expires_at = 20\<rparr>)], default_ttl = 300\<rparr>)) ''b''
      = Some \<lparr>entry_value = 8, expires_at = 20\<rparr>
   \<and> map_of (cache (snd (CacheManager_delete ''a''
        \<lparr>cache = [(''a'', \<lparr>entry_value = 7::nat, expires_at = 5\<rparr>),
                   (''b'', \<lparr>entry_value = 8, expires_at = 20\<rparr>)], default_ttl = 300\<rparr>))) ''b''
      = Some \<lparr>entry_value = 8, expires_at = 20\<rparr>"
proof -
  have ne: "''b'' \<noteq> ''a''" by simp
  from single_key_frame [OF ne, of 10
      "\<lparr>cache = [(''a'', \<lparr>entry_value = 7::nat, expires_at = 5\<rparr>),
                   (''b'', \<lparr>entry_value = 8, expires_at = 20\<rparr>)], default_ttl = 300\<rparr>" 5 None]
  show ?thesis by simp
qed

section \<open>The claims about the statistics\<close>

text \<open>
  Claim C3 (the per-group \<open>avg_conversion_rate\<close> is the totals-based
  \<open>sum(conversions) / sum(clicks) * 100\<close>, never the mean of the per-record rates) does
  not hold of \<^verbatim>\<open>get_channel_summary\<close>, whose \<^verbatim>\<open>AVG(conversion_rate)\<close> is the mean of the
  rows' rates. For the channel \<open>search\<close> with rows of 100 clicks and 10 conversions
  (rate 10) and of 200 clicks and 30 conversions (rate 15) it reports 12.5, where the
  totals give 40 / 300 * 100, rounded 13.33, which is what \<^verbatim>\<open>aggregate_by_channel\<close>
  computes from the same rows.
\<close>

theorem channel_summary_rate_is_row_mean:
  "get_channel_summary (\<lambda>c. 0)
     [\<lparr>ad_id = 1, ad_date = 1, ad_channel = ''search'', ad_impressions = None, ad_clicks = 100,
        ad_conversions = 10, ad_ctr = None, ad_conversion_rate = 10\<rparr>,
      \<lparr>ad_id = 2, ad_date = 2, ad_channel = ''search'', ad_impressions = None, ad_clicks = 200,
        ad_conversions = 30, ad_ctr = None, ad_conversion_rate = 15\<rparr>]
     = [\<lparr>cs_channel = ''search'', record_count = 2, cs_total_clicks = 300,
         cs_total_conversions = 40, cs_avg_conversion_rate = 25 / 2\<rparr>]
   \<and> py_round2 (of_int 40 / of_int 300 * 100) = 1333 / 100
   \<and> aggregate_by_channel
     [\<lparr>ad_id = 1, ad_date = 1, ad_channel = ''search'', ad_impressions = None, ad_clicks = 100,
        ad_conversions = 10, ad_ctr = None, ad_conversion_rate = 10\<rparr>,
      \<lparr>ad_id = 2, ad_date = 2, ad_channel = ''search'', ad_impressions = None, ad_clicks = 200,
        ad_conversions = 30, ad_ctr = None, ad_conversion_rate = 15\<rparr>]
     = [\<lparr>agg_key = ''search'', agg_clicks = 300, agg_conversions = 40,
         agg_conversion_rate = Some (40 / 3)\<rparr>]"
proof -
  have "\<lfloor>4000 / 3 :: rat\<rfloor> = 1333" by (rule floor_unique) simp_all
  then have r: "py_round2 (of_int 40 / of_int 300 * 100) = 1333 / 100"
    by (simp add: py_round2_def round_half_even_def Let_def)
  have g: "get_channel_summary (\<lambda>c. 0)
     [\<lparr>ad_id = 1, ad_date = 1, ad_channel = ''search'', ad_impressions = None, ad_clicks = 100,
        ad_conversions = 10, ad_ctr = None, ad_conversion_rate = 10\<rparr>,
      \<lparr>ad_id = 2, ad_date = 2, ad_channel = ''search'', ad_impressions = None, ad_clicks = 200,
        ad_conversions = 30, ad_ctr = None, ad_conversion_rate = 15\<rparr>]
     = [\<lparr>cs_channel = ''search'', record_count = 2, cs_total_clicks = 300,
         cs_total_conversions = 40, cs_avg_conversion_rate = 25 / 2\<rparr>]"
    by (simp add: get_channel_summary_def group_row_def sql_avg_def py_round2_def
        round_half_even_def)
  have a: "aggregate_by_channel
     [\<lparr>ad_id = 1, ad_date = 1, ad_channel = ''search'', ad_impressions = None, ad_clicks = 100,
        ad_conversions = 10, ad_ctr = None, ad_conversion_rate = 10\<rparr>,
      \<lparr>ad_id = 2, ad_date = 2, ad_channel = ''search'', ad_impressions = None, ad_clicks = 200,
        ad_conversions = 30, ad_ctr = None, ad_conversion_rate = 15\<rparr>]
     = [\<lparr>agg_key = ''search'', agg_clicks = 300, agg_conversions = 40,
         agg_conversion_rate = Some (40 / 3)\<rparr>]"
    by (simp add: aggregate_by_channel_def aggregate_by_def aggregate_row_def pd_div100_def)
  from g r a show ?thesis by blast
qed





text \<open>
  Claim C6 as stated (the channel summaries are sorted descending by \<open>total_clicks\<close>,
  ties in first-seen order) fails on two counts. \<^verbatim>\<open>aggregate_by_channel\<close> orders its
  groups by channel name: channel \<open>a\<close> with 1 click comes before \<open>b\<close> with 2. And in
  \<^verbatim>\<open>get_channel_summary\<close> the order of two channels with equal \<open>total_clicks\<close> is the
  database's: when it forms the group of \<open>b\<close> first, \<open>b\<close> precedes \<open>a\<close> although
  \<open>a\<close> is seen first in the table.
\<close>

theorem aggregate_by_channel_not_by_clicks:
  "aggregate_by_channel
     [\<lparr>ad_id = 1, ad_date = 1, ad_channel = ''a'', ad_impressions = None, ad_clicks = 1,
        ad_conversions = 0, ad_ctr = None, ad_conversion_rate = 0\<rparr>,
      \<lparr>ad_id = 2, ad_date = 1, ad_channel = ''b'', ad_impressions = None, ad_clicks = 2,
        ad_conversions = 1, ad_ctr = None, ad_conversion_rate = 50\<rparr>]
     = [\<lparr>agg_key = ''a'', agg_clicks = 1, agg_conversions = 0, agg_conversion_rate = Some 0\<rparr>,
        \<lparr>agg_key = ''b'', agg_clicks = 2, agg_conversions = 1, agg_conversion_rate = Some 50\<rparr>]
   \<and> map cs_channel (get_channel_summary (\<lambda>c. if c = ''b'' then 0 else 1)
     [\<lparr>ad_id = 1, ad_date = 1, ad_channel = ''a'', ad_impressions = None, ad_clicks = 2,
        ad_conversions = 0, ad_ctr = None, ad_conversion_rate = 0\<rparr>,
      \<lparr>ad_id = 2, ad_date = 1, ad_channel = ''b'', ad_impressions = None, ad_clicks = 2,
        ad_conversions = 1, ad_ctr = None, ad_conversion_rate = 50\<rparr>])
     = [''b'', ''a'']"
  by (simp add: aggregate_by_channel_def aggregate_by_def aggregate_row_def pd_div100_def
      get_channel_summary_def group_row_def)

text \<open>
  Claim C6, amended. \<^verbatim>\<open>get_channel_summary\<close> yields one summary per distinct channel,
  sorted descending by \<open>total_clicks\<close>, whatever order the database gives to channels
  with equal \<open>total_clicks\<close>; \<^verbatim>\<open>aggregate_by_channel\<close> yields one row per distinct
  channel in ascending order of the channel name.
\<close>

theorem channel_summary_order:
  "sorted_wrt (\<lambda>a b. cs_total_clicks a \<ge> cs_total_clicks b) (get_channel_summary rank table)
   \<and> set (map cs_channel (get_channel_summary rank table)) = set (map ad_channel table)
   \<and> distinct (map cs_channel (get_channel_summary rank table))
   \<and> sorted_wrt (<) (map agg_key (aggregate_by_channel df))
   \<and> set (map agg_key (aggregate_by_channel df)) = set (map ad_channel df)"
  using channel_summary_sorted [of rank table] channel_summary_channels [of rank table]
    aggregate_by_sorted [of ad_channel df] aggregate_by_keys [of ad_channel df]
  by (simp add: aggregate_by_channel_def)

theorem channel_summary_order_witness:
  "get_channel_summary (\<lambda>c. 0)
     [\<lparr>ad_id = 1, ad_date = 1, ad_channel = ''social'', ad_impressions = None, ad_clicks = 50,
        ad_conversions = 5, ad_ctr = None, ad_conversion_rate = 10\<rparr>,
      \<lparr>ad_id = 2, ad_date = 1, ad_channel = ''search'', ad_impressions = None, ad_clicks = 100,
        ad_conversions = 10, ad_ctr = None, ad_conversion_rate = 10\<rparr>]
     = [\<lparr>cs_channel = ''search'', record_count = 1, cs_total_clicks = 100,
         cs_total_conversions = 10, cs_avg_conversion_rate = 10\<rparr>,
        \<lparr>cs_channel = ''social'', record_count = 1, cs_total_clicks = 50,
         cs_total_conversions = 5, cs_avg_conversion_rate = 10\<rparr>]
   \<and> sorted_wrt (\<lambda>a b. cs_total_clicks a \<ge> cs_total_clicks b)
       [\<lparr>cs_channel = ''search'', record_count = 1, cs_total_clicks = 100,
         cs_total_conversions = 10, cs_avg_conversion_rate = 10\<rparr>,
        \<lparr>cs_channel = ''social'', record_count = 1, cs_total_clicks = 50,
         cs_total_conversions = 5, cs_avg_conversion_rate = 10\<rparr>]"
proof -
  let ?t = "[\<lparr>ad_id = 1, ad_date = 1, ad_channel = ''social'', ad_impressions = None, ad_clicks = 50,
        ad_conversions = 5, ad_ctr = None, ad_conversion_rate = 10\<rparr>,
      \<lparr>ad_id = 2, ad_date = 1, ad_channel = ''search'', ad_impressions = None, ad_clicks = 100,
        ad_conversions = 10, ad_ctr = None, ad_conversion_rate = 10\<rparr>]"
  have e: "get_channel_summary (\<lambda>c. 0) ?t
     = [\<lparr>cs_channel = ''search'', record_count = 1, cs_total_clicks = 100,
         cs_total_conversions = 10, cs_avg_conversion_rate = 10\<rparr>,
        \<lparr>cs_channel = ''social'', record_count = 1, cs_total_clicks = 50,
         cs_total_conversions = 5, cs_avg_conversion_rate = 10\<rparr>]"
    by (simp add: get_channel_summary_def group_row_def sql_avg_def py_round2_def
        round_half_even_def)
  from channel_summary_order [of "\<lambda>c. 0" ?t ?t] e show ?thesis by simp
qed




section \<open>The claim about the cached query handler\<close>

text \<open>
  Claim C2 as stated (any two consecutive calls of the stats handler with identical
  parameters and no \<^verbatim>\<open>clear()\<close> between them compute the statistics exactly once)
  fails when the entry has expired between the calls: the handler stores with
  \<^verbatim>\<open>ttl=300\<close>, and a second call 301 seconds after the first computes again.
\<close>

theorem second_call_after_ttl_recomputes:
  "get_stats_calls (snd (get_statistics (\<lambda>s. None) 301 301 None None None
      (snd (get_statistics (\<lambda>s. None) 0 0 None None None empty_app)))) = 2"
proof -
  let ?k = "cache_key None None None"
  let ?r = "\<lparr>data = [], summary = \<lparr>total_records = 0, total_clicks = 0, total_conversions = 0,
        avg_conversion_rate = 0\<rparr>\<rparr>"
  let ?c1 = "CacheManager_set 0 ?k ?r (Some 300)
      (snd (CacheManager_get 0 ?k (cache_mgr empty_app)))"
  let ?st1 = "empty_app\<lparr>cache_mgr := ?c1, get_stats_calls := get_stats_calls empty_app + 1\<rparr>"
  have first: "get_statistics (\<lambda>s. None) 0 0 None None None empty_app = (Inr ?r, ?st1)"
    by (rule get_statistics_miss [OF get_empty_app refl get_stats_empty_app])
  have m2: "fst (CacheManager_get 301 ?k (cache_mgr ?st1)) = None"
    by (simp add: get_after_set)
  have ok2: "get_stats (\<lambda>s. None) None None None (ad_data (db ?st1)) = Inr ?r"
    using get_stats_empty_app [of "\<lambda>s. None"] by simp
  show ?thesis
    unfolding first snd_conv get_statistics_miss [OF m2 refl ok2]
    by (simp add: empty_app_def)
qed

text \<open>
  Claim C2, amended. When the first call finds no live entry for its parameters and the
  query succeeds, a second call with the same parameters whose lookup happens no later
  than 300 seconds after the first call stored its result, with no \<^verbatim>\<open>clear()\<close> in
  between, is served from the cache: \<^verbatim>\<open>get_stats\<close> has run exactly once and both
  calls return the same result. With a \<^verbatim>\<open>clear()\<close> between the two calls
  \<^verbatim>\<open>get_stats\<close> runs a second time.
\<close>

theorem two_calls_one_computation:
  assumes miss: "fst (CacheManager_get t1 (cache_key sd ed ch) (cache_mgr st)) = None"
    and ok: "get_stats cast sd ed ch (ad_data (db st)) = Inr r"
    and fresh: "t2 \<le> t1' + 300"
  shows "fst (get_statistics cast t1 t1' sd ed ch st) = Inr r
    \<and> fst (get_statistics cast t2 t2' sd ed ch (snd (get_statistics cast t1 t1' sd ed ch st))) = Inr r
    \<and> get_stats_calls (snd (get_statistics cast t2 t2' sd ed ch
          (snd (get_statistics cast t1 t1' sd ed ch st)))) = get_stats_calls st + 1
    \<and> get_stats_calls (snd (get_statistics cast t2 t2' sd ed ch
          ((snd (get_statistics cast t1 t1' sd ed ch st))
             \<lparr>cache_mgr := CacheManager_clear
                 (cache_mgr (snd (get_statistics cast t1 t1' sd ed ch st)))\<rparr>)))
        = get_stats_calls st + 2"
proof -
  let ?k = "cache_key sd ed ch"
  let ?c1 = "CacheManager_set t1' ?k r (Some 300) (snd (CacheManager_get t1 ?k (cache_mgr st)))"
  let ?st1 = "st\<lparr>cache_mgr := ?c1, get_stats_calls := get_stats_calls st + 1\<rparr>"
  have first: "get_statistics cast t1 t1' sd ed ch st = (Inr r, ?st1)"
    by (rule get_statistics_miss [OF miss refl ok])
  have g2: "CacheManager_get t2 ?k (cache_mgr ?st1) = (Some r, ?c1)"
    using fresh by (simp add: get_after_set)
  have second: "get_statistics cast t2 t2' sd ed ch ?st1 = (Inr r, ?st1\<lparr>cache_mgr := ?c1\<rparr>)"
    by (rule get_statistics_hit [OF g2])
  let ?stc = "?st1\<lparr>cache_mgr := CacheManager_clear (cache_mgr ?st1)\<rparr>"
  have mc: "fst (CacheManager_get t2 ?k (cache_mgr ?stc)) = None"
    by (simp add: get_after_clear)
  have okc: "get_stats cast sd ed ch (ad_data (db ?stc)) = Inr r"
    using ok by simp
  have third: "get_stats_calls (snd (get_statistics cast t2 t2' sd ed ch ?stc))
      = get_stats_calls st + 2"
    unfolding get_statistics_miss [OF mc refl okc] by simp
  show ?thesis
    unfolding first using second third by simp
qed

theorem two_calls_one_computation_witness:
  "fst (CacheManager_get 0 (cache_key None None None) (cache_mgr empty_app)) = None
   \<and> get_stats (\<lambda>s. None) None None None (ad_data (db empty_app)) =
       Inr \<lparr>data = [], summary = \<lparr>total_records = 0, total_clicks = 0, total_conversions = 0,
        avg_conversion_rate = 0\<rparr>\<rparr>
   \<and> (200::real) \<le> 1 + 300
   \<and> get_stats_calls (snd (get_statistics (\<lambda>s. None) 200 201 None None None
        (snd (get_statistics (\<lambda>s. None) 0 1 None None None empty_app)))) = 1
   \<and> get_stats_calls (snd (get_statistics (\<lambda>s. None) 200 201 None None None
        ((snd (get_statistics (\<lambda>s. None) 0 1 None None None empty_app))
           \<lparr>cache_mgr := CacheManager_clear
              (cache_mgr (snd (get_statistics (\<lambda>s. None) 0 1 None None None empty_app)))\<rparr>))) = 2"
proof -
  have f: "(200::real) \<le> 1 + 300" by simp
  have z: "get_stats_calls empty_app = 0" by (simp add: empty_app_def)
  from two_calls_one_computation [OF get_empty_app get_stats_empty_app f,
      where ?t1.0 = 0 and cast = "\<lambda>s. None" and ?t2' = 201]
    get_empty_app [of 0] get_stats_empty_app [of "\<lambda>s. None"] f z
  show ?thesis by simp
qed

end
